theory Spec2Isabelle
  imports Main "HOL-Library.Word"
begin

section \<open>The photo server of \<^verbatim>\<open>src/server/servidor.py\<close>\<close>

text \<open>
  The server accepts TCP connections, reads a 4-byte big-endian length, reads that many
  payload bytes, writes them to \<^verbatim>\<open>data/YYYY-MM-DD/HHMMSS.jpg\<close> and answers
  \<^verbatim>\<open>OK\<close>. Everything the Python does to the outside (the client socket, the file
  system, the clock, the Tk event queue, standard output) is explicit state here.
\<close>

subsection \<open>Bytes, errors and the client socket\<close>

type_synonym byte = "8 word"

text \<open>
  The exceptions that the modelled calls can raise. All of them are subclasses of
  Python's \<^verbatim>\<open>Exception\<close>, so every \<^verbatim>\<open>except Exception\<close> catches them.
\<close>

datatype error =
    ConnectionError   \<comment> \<open>\<^verbatim>\<open>recv\<close>/\<^verbatim>\<open>send\<close> on a reset connection (an \<^verbatim>\<open>OSError\<close>)\<close>
  | StructError       \<comment> \<open>\<^verbatim>\<open>struct.unpack\<close> on a buffer of the wrong length\<close>
  | FileExistsError   \<comment> \<open>\<^verbatim>\<open>mkdir\<close> of a path that exists (an \<^verbatim>\<open>OSError\<close>)\<close>
  | FileSystemError   \<comment> \<open>any other \<^verbatim>\<open>OSError\<close> of \<^verbatim>\<open>open\<close>, \<^verbatim>\<open>write\<close>, \<^verbatim>\<open>mkdir\<close>\<close>
  | TclError          \<comment> \<open>\<^verbatim>\<open>root.after\<close> on a destroyed interpreter\<close>
  | BindError         \<comment> \<open>\<^verbatim>\<open>bind\<close> on an address in use or not permitted (an \<^verbatim>\<open>OSError\<close>)\<close>
  | AttributeError    \<comment> \<open>a method call on \<^verbatim>\<open>None\<close>\<close>

text \<open>
  What the network delivers next on a connection: a fragment of the byte stream, or a
  reset that makes the next \<^verbatim>\<open>recv\<close> raise. When the list is exhausted the peer has
  closed its side and \<^verbatim>\<open>recv\<close> returns \<^verbatim>\<open>b''\<close>.
\<close>

datatype event = Chunk "byte list" | Reset

record sock =
  incoming :: "event list"     \<comment> \<open>what the peer will deliver, in order\<close>
  requests :: "nat list"       \<comment> \<open>the \<^verbatim>\<open>bufsize\<close> of every \<^verbatim>\<open>recv\<close> call made so far\<close>
  send_fails :: bool           \<comment> \<open>environment: \<^verbatim>\<open>send\<close> raises on this connection\<close>
  sent :: "byte list"          \<comment> \<open>bytes written to the peer so far\<close>
  closed :: bool

text \<open>
  \<^verbatim>\<open>sock.recv(k)\<close>: at most \<^verbatim>\<open>k\<close> bytes of the next fragment; what is left of the
  fragment stays first in the queue.
\<close>

definition recv :: "sock \<Rightarrow> nat \<Rightarrow> (error + byte list) \<times> sock" where
  "recv s k =
     (let s1 = s\<lparr>requests := requests s @ [k]\<rparr> in
      case incoming s of
        [] \<Rightarrow> (Inr [], s1)
      | Reset # es \<Rightarrow> (Inl ConnectionError, s1\<lparr>incoming := es\<rparr>)
      | Chunk c # es \<Rightarrow>
          (Inr (take k c),
           s1\<lparr>incoming := (if length c \<le> k then es else Chunk (drop k c) # es)\<rparr>))"

text \<open>
  \<^verbatim>\<open>sock.send(b)\<close> and \<^verbatim>\<open>sock.close()\<close>. The only send of the program has two
  bytes, which go out whole or not at all.
\<close>

definition send :: "sock \<Rightarrow> byte list \<Rightarrow> (error + unit) \<times> sock" where
  "send s bs =
     (if send_fails s then (Inl ConnectionError, s)
      else (Inr (), s\<lparr>sent := sent s @ bs\<rparr>))"

definition close :: "sock \<Rightarrow> sock" where
  "close s = s\<lparr>closed := True\<rparr>"

subsection \<open>\<^verbatim>\<open>PhotoServer._receive_all\<close>\<close>

text \<open>
  \<^verbatim>\<open>
  data = b''
  while len(data) < size:
      chunk = sock.recv(size - len(data))
      if not chunk:
          return None
      data += chunk
  return data
  \<close>
  The loop with its accumulator; \<open>Inr None\<close> is the \<^verbatim>\<open>return None\<close>, \<open>Inl e\<close> an
  exception of \<^verbatim>\<open>recv\<close> that propagates. The size is a length decoded from an unsigned
  header or the literal 4, hence a \<open>nat\<close>.
\<close>

function receive_loop :: "sock \<Rightarrow> nat \<Rightarrow> byte list \<Rightarrow> (error + byte list option) \<times> sock" where
  "receive_loop s sz data =
     (if length data < sz then
        (case recv s (sz - length data) of
           (Inl e, s') \<Rightarrow> (Inl e, s')
         | (Inr chunk, s') \<Rightarrow>
             if chunk = [] then (Inr None, s')
             else receive_loop s' sz (data @ chunk))
      else (Inr (Some data), s))"
  by pat_completeness auto
termination
  by (relation "measure (\<lambda>(s, sz, data). sz - length data)") (auto simp: neq_Nil_conv)

declare receive_loop.simps [simp del]

definition receive_all :: "sock \<Rightarrow> nat \<Rightarrow> (error + byte list option) \<times> sock" where
  "receive_all s sz = receive_loop s sz []"

subsection \<open>The framing header\<close>

text \<open>
  \<^verbatim>\<open>struct.unpack('>I', size_data)[0]\<close>: four bytes, most significant first; any other
  length raises \<^verbatim>\<open>struct.error\<close>.
\<close>

fun unpack_be32 :: "byte list \<Rightarrow> error + nat" where
  "unpack_be32 [b0, b1, b2, b3] =
     Inr (unat b0 * 2 ^ 24 + unat b1 * 2 ^ 16 + unat b2 * 2 ^ 8 + unat b3)"
| "unpack_be32 _ = Inl StructError"

text \<open>
  Modelled from the spec: the client is not part of the repository. The spec's wire
  protocol has it send the payload length as a 4-byte big-endian unsigned integer.
\<close>

definition pack_be32 :: "nat \<Rightarrow> byte list" where
  "pack_be32 n =
     [of_nat (n div 2 ^ 24), of_nat (n div 2 ^ 16), of_nat (n div 2 ^ 8), of_nat n]"

subsection \<open>Clock and \<^verbatim>\<open>strftime\<close>\<close>

record datetime =
  year :: nat
  month :: nat
  day :: nat
  hour :: nat
  minute :: nat
  second :: nat

definition digit :: "nat \<Rightarrow> char" where
  "digit n = ''0123456789'' ! (n mod 10)"

definition two_digits :: "nat \<Rightarrow> string" where
  "two_digits n = [digit (n div 10), digit n]"

definition four_digits :: "nat \<Rightarrow> string" where
  "four_digits n = [digit (n div 1000), digit (n div 100), digit (n div 10), digit n]"

text \<open>
  \<^verbatim>\<open>strftime('%Y-%m-%d')\<close> and \<^verbatim>\<open>strftime('%H%M%S')\<close>, zero padded. A reading of
  \<^verbatim>\<open>datetime.now()\<close> has a year of four digits and month, day, hour, minute and
  second of at most two.
\<close>

definition strftime_date :: "datetime \<Rightarrow> string" where
  "strftime_date t = four_digits (year t) @ ''-'' @ two_digits (month t) @ ''-'' @ two_digits (day t)"

definition strftime_time :: "datetime \<Rightarrow> string" where
  "strftime_time t = two_digits (hour t) @ two_digits (minute t) @ two_digits (second t)"

subsection \<open>Paths\<close>

text \<open>\<^verbatim>\<open>os.path.join(a, b)\<close> and \<^verbatim>\<open>os.path.split(p)\<close> of \<^verbatim>\<open>posixpath\<close>.\<close>

definition path_join :: "string \<Rightarrow> string \<Rightarrow> string" where
  "path_join a b =
     (if b \<noteq> [] \<and> hd b = CHR ''/'' then b
      else if a = [] \<or> last a = CHR ''/'' then a @ b
      else a @ ''/'' @ b)"

definition all_slashes :: "string \<Rightarrow> bool" where
  "all_slashes p = list_all (\<lambda>c. c = CHR ''/'') p"

definition rstrip_slashes :: "string \<Rightarrow> string" where
  "rstrip_slashes p = rev (dropWhile (\<lambda>c. c = CHR ''/'') (rev p))"

definition path_split :: "string \<Rightarrow> string \<times> string" where
  "path_split p =
     (let tail = rev (takeWhile (\<lambda>c. c \<noteq> CHR ''/'') (rev p));
          head = take (length p - length tail) p
      in (if head \<noteq> [] \<and> \<not> all_slashes head then rstrip_slashes head else head, tail))"

subsection \<open>The world outside the process\<close>

type_synonym addr = "string \<times> nat"

datatype node = Dir | File "byte list"

text \<open>What the server prints; one constructor per \<^verbatim>\<open>print\<close> of the source.\<close>

datatype msg =
    SizeMsg nat               \<comment> \<open>\<^verbatim>\<open>Tamanho da imagem a ser recebida\<close>\<close>
  | SavedMsg string           \<comment> \<open>\<^verbatim>\<open>Imagem salva\<close>\<close>
  | SaveErrorMsg error        \<comment> \<open>\<^verbatim>\<open>Erro ao salvar ou agendar exibicao da imagem\<close>\<close>
  | ClientErrorMsg addr error \<comment> \<open>\<^verbatim>\<open>Erro ao processar cliente\<close>\<close>
  | StartedMsg                \<comment> \<open>\<^verbatim>\<open>Servidor iniciado em\<close>\<close>
  | ConnectedMsg addr         \<comment> \<open>\<^verbatim>\<open>Cliente conectado\<close>\<close>
  | StoppedMsg                \<comment> \<open>\<^verbatim>\<open>Servidor foi parado.\<close>\<close>
  | AcceptErrorMsg            \<comment> \<open>\<^verbatim>\<open>Erro ao aceitar conexao.\<close>\<close>
  | CriticalMsg error         \<comment> \<open>\<^verbatim>\<open>Erro critico no servidor\<close>\<close>
  | StoppingMsg               \<comment> \<open>\<^verbatim>\<open>Parando o servidor...\<close>\<close>

record world =
  nodes :: "string \<rightharpoonup> node"       \<comment> \<open>the file system, by path\<close>
  denied :: "string set"              \<comment> \<open>paths the process may not create or open\<close>
  write_capacity :: "nat option"      \<comment> \<open>bytes the disk still accepts; \<open>None\<close> is no limit\<close>
  now :: datetime                     \<comment> \<open>what \<^verbatim>\<open>datetime.now()\<close> returns\<close>
  base_dir :: string                  \<comment> \<open>\<^verbatim>\<open>os.path.dirname(os.path.abspath(__file__))\<close>\<close>
  gui_alive :: bool                   \<comment> \<open>the Tk interpreter still accepts \<^verbatim>\<open>after\<close>\<close>
  scheduled :: "(byte list \<times> string \<times> addr) list"  \<comment> \<open>pending \<^verbatim>\<open>_update_display\<close> calls\<close>
  stdout :: "msg list"

definition print :: "world \<Rightarrow> msg \<Rightarrow> world" where
  "print w m = w\<lparr>stdout := stdout w @ [m]\<rparr>"

text \<open>
  A path names a directory when it is the current directory (the empty head of a
  relative path), the root, or a directory node.
\<close>

definition is_dir :: "world \<Rightarrow> string \<Rightarrow> bool" where
  "is_dir w p = (all_slashes p \<or> nodes w p = Some Dir)"

definition path_exists :: "world \<Rightarrow> string \<Rightarrow> bool" where
  "path_exists w p = (all_slashes p \<or> nodes w p \<noteq> None)"

text \<open>\<^verbatim>\<open>os.mkdir(p)\<close>: the path must be new and its parent a directory.\<close>

definition mkdir :: "world \<Rightarrow> string \<Rightarrow> (error + unit) \<times> world" where
  "mkdir w p =
     (if path_exists w p then (Inl FileExistsError, w)
      else if \<not> is_dir w (fst (path_split p)) \<or> p \<in> denied w then (Inl FileSystemError, w)
      else (Inr (), w\<lparr>nodes := (nodes w)(p \<mapsto> Dir)\<rparr>))"

text \<open>
  The last step of \<^verbatim>\<open>os.makedirs(name, exist_ok=True)\<close>:
  \<^verbatim>\<open>
  try:
      mkdir(name, mode)
  except OSError:
      if not exist_ok or not path.isdir(name):
          raise
  \<close>
\<close>

definition mkdir_exist_ok :: "world \<Rightarrow> string \<Rightarrow> (error + unit) \<times> world" where
  "mkdir_exist_ok w name =
     (case mkdir w name of
        (Inl e, w') \<Rightarrow> if is_dir w' name then (Inr (), w') else (Inl e, w')
      | (Inr u, w') \<Rightarrow> (Inr u, w'))"

text \<open>
  The head and tail that \<^verbatim>\<open>os.makedirs\<close> works with:
  \<^verbatim>\<open>
  head, tail = path.split(name)
  if not tail:
      head, tail = path.split(head)
  \<close>
\<close>

definition makedirs_split :: "string \<Rightarrow> string \<times> string" where
  "makedirs_split name =
     (let (head, tail) = path_split name
      in if tail = [] then path_split head else (head, tail))"

text \<open>
  \<^verbatim>\<open>os.makedirs(name, exist_ok=True)\<close>, as the standard library writes it:
  \<^verbatim>\<open>
  if head and tail and not path.exists(head):
      try:
          makedirs(head, exist_ok=exist_ok)
      except FileExistsError:
          pass
      if tail == curdir:
          return
  try: mkdir(name, mode) ...
  \<close>
\<close>

function makedirs :: "world \<Rightarrow> string \<Rightarrow> (error + unit) \<times> world" where
  "makedirs w name =
     (let head = fst (makedirs_split name); tail = snd (makedirs_split name) in
      if head \<noteq> [] \<and> tail \<noteq> [] \<and> \<not> path_exists w head then
        (case makedirs w head of
           (Inl e, w1) \<Rightarrow>
             if e = FileExistsError then
               (if tail = ''.'' then (Inr (), w1) else mkdir_exist_ok w1 name)
             else (Inl e, w1)
         | (Inr u, w1) \<Rightarrow>
             if tail = ''.'' then (Inr (), w1) else mkdir_exist_ok w1 name)
      else mkdir_exist_ok w name)"
  by pat_completeness auto
termination
proof (relation "measure (\<lambda>(w, name). length name)")
  show "wf (measure (\<lambda>(w, name). length name))" by simp
next
  fix w :: world and name head tail
  assume h: "head = fst (makedirs_split name)" and t: "tail = snd (makedirs_split name)"
    and ne: "head \<noteq> [] \<and> tail \<noteq> [] \<and> \<not> path_exists w head"
  have strip: "length (rstrip_slashes q) \<le> length q" for q
    by (simp add: rstrip_slashes_def) (metis length_dropWhile_le length_rev)
  have parts: "length (fst (path_split q)) + length (snd (path_split q)) \<le> length q" for q
  proof -
    let ?tl = "rev (takeWhile (\<lambda>c. c \<noteq> CHR ''/'') (rev q))"
    let ?h0 = "take (length q - length ?tl) q"
    have b: "length ?tl \<le> length q"
      by (metis length_rev length_takeWhile_le)
    have c: "length ?h0 = length q - length ?tl" by simp
    have d: "length (fst (path_split q)) \<le> length ?h0"
      unfolding path_split_def Let_def fst_conv using strip [of ?h0]
      by (simp only: split: if_split) simp
    have e: "snd (path_split q) = ?tl" by (simp add: path_split_def Let_def)
    show ?thesis unfolding e using b c d by arith
  qed
  have le: "length (fst (path_split q)) \<le> length q" for q
    using parts [of q] by simp
  have lt: "length (fst (path_split q)) < length q" if "snd (path_split q) \<noteq> []" for q
    using parts [of q] that by (cases "snd (path_split q)") simp_all
  have "length head < length name"
  proof (cases "snd (path_split name) = []")
    case True
    then have "head = fst (path_split (fst (path_split name)))"
      and "tail = snd (path_split (fst (path_split name)))"
      using h t by (simp_all add: makedirs_split_def split_beta)
    then have "length head < length (fst (path_split name))"
      using lt [of "fst (path_split name)"] ne by simp
    then show ?thesis using le [of name] by simp
  next
    case False
    then have "head = fst (path_split name)"
      using h by (simp add: makedirs_split_def split_beta)
    then show ?thesis using lt [of name] False by simp
  qed
  then show "((w, head), (w, name)) \<in> measure (\<lambda>(w, name). length name)" by simp
qed

declare makedirs.simps [simp del]


text \<open>
  \<^verbatim>\<open>with open(filepath, 'wb') as f: f.write(image_data)\<close>. Opening creates or
  truncates the file; it fails on a directory, under a missing parent and where access
  is denied. A write beyond the disk's capacity leaves what fitted and raises.
\<close>

definition write_file :: "world \<Rightarrow> string \<Rightarrow> byte list \<Rightarrow> (error + unit) \<times> world" where
  "write_file w path bs =
     (if snd (path_split path) = [] \<or> nodes w path = Some Dir
         \<or> \<not> is_dir w (fst (path_split path)) \<or> path \<in> denied w
      then (Inl FileSystemError, w)
      else
        (case write_capacity w of
           None \<Rightarrow> (Inr (), w\<lparr>nodes := (nodes w)(path \<mapsto> File bs)\<rparr>)
         | Some k \<Rightarrow>
             if k < length bs
             then (Inl FileSystemError, w\<lparr>nodes := (nodes w)(path \<mapsto> File (take k bs))\<rparr>)
             else (Inr (), w\<lparr>nodes := (nodes w)(path \<mapsto> File bs)\<rparr>)))"

text \<open>
  \<^verbatim>\<open>self.root.after(0, self._update_display, image_data, filepath, client_address)\<close>:
  queues the call for the Tk main loop, or raises when the interpreter is gone.
\<close>

definition root_after :: "world \<Rightarrow> byte list \<times> string \<times> addr \<Rightarrow> (error + unit) \<times> world" where
  "root_after w call =
     (if gui_alive w then (Inr (), w\<lparr>scheduled := scheduled w @ [call]\<rparr>)
      else (Inl TclError, w))"

subsection \<open>The \<^verbatim>\<open>PhotoServer\<close> object\<close>

record listener =
  reuse_addr :: bool
  bound_to :: "addr option"
  backlog :: "nat option"
  lclosed :: bool

record server =
  host :: string
  port :: nat
  server_socket :: "listener option"
  running :: bool
  data_dir :: string

text \<open>
  \<^verbatim>\<open>
  def create_data_directory(self):
      base_dir = os.path.dirname(os.path.abspath(__file__))
      today = datetime.now().strftime('%Y-%m-%d')
      self.data_dir = os.path.join(base_dir, 'data', today)
      os.makedirs(self.data_dir, exist_ok=True)
  \<close>
  The attribute is assigned before \<^verbatim>\<open>makedirs\<close> runs, so it is set even when the
  call raises.
\<close>

definition create_data_directory :: "server \<Rightarrow> world \<Rightarrow> (error + unit) \<times> server \<times> world" where
  "create_data_directory srv w =
     (let today = strftime_date (now w);
          srv1 = srv\<lparr>data_dir := path_join (path_join (base_dir w) ''data'') today\<rparr>
      in case makedirs w (data_dir srv1) of (r, w1) \<Rightarrow> (r, srv1, w1))"

text \<open>
  \<^verbatim>\<open>__init__\<close>: the fields, then (after the widgets, which touch nothing modelled here)
  \<^verbatim>\<open>self.create_data_directory()\<close>. The field \<open>data_dir\<close> does not exist before
  that call; the empty string stands for it.
\<close>

definition init :: "string \<Rightarrow> nat \<Rightarrow> world \<Rightarrow> (error + unit) \<times> server \<times> world" where
  "init h p w =
     create_data_directory
       \<lparr>host = h, port = p, server_socket = None, running = False, data_dir = []\<rparr> w"

subsection \<open>\<^verbatim>\<open>PhotoServer._save_and_display_image\<close>\<close>

text \<open>
  \<^verbatim>\<open>
  try:
      timestamp = datetime.now().strftime('%H%M%S')
      filename = f"{timestamp}.jpg"
      filepath = os.path.join(self.data_dir, filename)
      with open(filepath, 'wb') as f:
          f.write(image_data)
      print(f"Imagem salva: {filepath}")
      self.root.after(0, self._update_display, image_data, filepath, client_address)
  except Exception as e:
      print(f"Erro ao salvar ou agendar exibicao da imagem: {e}")
  \<close>
  Every exception ends in the \<^verbatim>\<open>print\<close>; the method always returns normally.
\<close>

definition save_path :: "server \<Rightarrow> world \<Rightarrow> string" where
  "save_path srv w = path_join (data_dir srv) (strftime_time (now w) @ ''.jpg'')"

definition save_and_display_image :: "server \<Rightarrow> world \<Rightarrow> byte list \<Rightarrow> addr \<Rightarrow> world" where
  "save_and_display_image srv w image_data client_address =
     (let filepath = save_path srv w in
      case write_file w filepath image_data of
        (Inl e, w1) \<Rightarrow> print w1 (SaveErrorMsg e)
      | (Inr u, w1) \<Rightarrow>
          (case root_after (print w1 (SavedMsg filepath)) (image_data, filepath, client_address) of
             (Inl e, w2) \<Rightarrow> print w2 (SaveErrorMsg e)
           | (Inr u, w2) \<Rightarrow> w2))"

subsection \<open>\<^verbatim>\<open>PhotoServer._handle_client\<close>\<close>

definition OK :: "byte list" where
  "OK = [0x4F, 0x4B]"

text \<open>
  The body of the \<^verbatim>\<open>try\<close>:
  \<^verbatim>\<open>
  size_data = self._receive_all(client_socket, 4)
  if not size_data:
      return
  image_size = struct.unpack('>I', size_data)[0]
  print(f"Tamanho da imagem a ser recebida: {image_size} bytes")
  image_data = self._receive_all(client_socket, image_size)
  if not image_data:
      return
  self._save_and_display_image(image_data, client_address)
  client_socket.send(b"OK")
  \<close>
  \<open>Inr ()\<close> is leaving the block normally (by a \<^verbatim>\<open>return\<close> or at its end), \<open>Inl e\<close>
  leaving it by an exception. Python's \<^verbatim>\<open>not x\<close> is true for \<^verbatim>\<open>None\<close> and for the
  empty \<^verbatim>\<open>b''\<close> alike: both branches return.
\<close>

definition handle_client_try ::
    "server \<Rightarrow> world \<Rightarrow> sock \<Rightarrow> addr \<Rightarrow> (error + unit) \<times> world \<times> sock" where
  "handle_client_try srv w s client_address =
     (case receive_all s 4 of
        (Inl e, s1) \<Rightarrow> (Inl e, w, s1)
      | (Inr None, s1) \<Rightarrow> (Inr (), w, s1)
      | (Inr (Some size_data), s1) \<Rightarrow>
          if size_data = [] then (Inr (), w, s1)
          else
            (case unpack_be32 size_data of
               Inl e \<Rightarrow> (Inl e, w, s1)
             | Inr image_size \<Rightarrow>
                 (let w1 = print w (SizeMsg image_size) in
                  case receive_all s1 image_size of
                    (Inl e, s2) \<Rightarrow> (Inl e, w1, s2)
                  | (Inr None, s2) \<Rightarrow> (Inr (), w1, s2)
                  | (Inr (Some image_data), s2) \<Rightarrow>
                      if image_data = [] then (Inr (), w1, s2)
                      else
                        (let w2 = save_and_display_image srv w1 image_data client_address in
                         case send s2 OK of
                           (Inl e, s3) \<Rightarrow> (Inl e, w2, s3)
                         | (Inr u, s3) \<Rightarrow> (Inr (), w2, s3)))))"

text \<open>
  The whole method: the \<^verbatim>\<open>except Exception\<close> prints, the \<^verbatim>\<open>finally\<close> closes.
  \<^verbatim>\<open>
  except Exception as e:
      print(f"Erro ao processar cliente {client_address}: {e}")
  finally:
      client_socket.close()
  \<close>
\<close>

definition handle_client :: "server \<Rightarrow> world \<Rightarrow> sock \<Rightarrow> addr \<Rightarrow> world \<times> sock" where
  "handle_client srv w s client_address =
     (case handle_client_try srv w s client_address of
        (Inl e, w1, s1) \<Rightarrow> (print w1 (ClientErrorMsg client_address e), close s1)
      | (Inr u, w1, s1) \<Rightarrow> (w1, close s1))"


subsection \<open>Start, accept loop and stop\<close>

text \<open>
  The accept loop runs on a thread of its own while the main thread, in the Tk main
  loop, calls \<^verbatim>\<open>stop_server\<close>. The model is an interleaving of atomic steps on the
  shared object. It keeps where every server thread stands (each call of
  \<^verbatim>\<open>start_server\<close> spawns one), the connections handed to handler threads that have
  not run yet, and the connections whose handler has finished.
\<close>

datatype loop_exit =
    ConditionFalse    \<comment> \<open>\<^verbatim>\<open>while self.running\<close> found the flag false\<close>
  | StoppedCleanly    \<comment> \<open>\<^verbatim>\<open>accept\<close> raised \<^verbatim>\<open>OSError\<close> with the flag false, \<^verbatim>\<open>break\<close>\<close>
  | AcceptError       \<comment> \<open>\<^verbatim>\<open>accept\<close> raised \<^verbatim>\<open>OSError\<close> with the flag true, \<^verbatim>\<open>break\<close>\<close>
  | Critical error    \<comment> \<open>the outer \<^verbatim>\<open>except Exception\<close>\<close>

datatype thread_pc =
    Spawned                \<comment> \<open>at the top of \<^verbatim>\<open>_run_server\<close>\<close>
  | AtWhile                \<comment> \<open>about to evaluate \<^verbatim>\<open>while self.running\<close>\<close>
  | CallingAccept          \<comment> \<open>the test was true; about to call \<^verbatim>\<open>self.server_socket.accept()\<close>\<close>
  | InAccept               \<comment> \<open>blocked in \<^verbatim>\<open>accept\<close> on a socket that was open at the call\<close>
  | Returned loop_exit     \<comment> \<open>\<^verbatim>\<open>_run_server\<close> has returned\<close>
  | Raised error           \<comment> \<open>\<^verbatim>\<open>_run_server\<close> was left by an exception; no step
                               leads here, the outer \<^verbatim>\<open>except Exception\<close> catches them all\<close>

record system =
  self :: server
  wld :: world
  threads :: "thread_pc list"
  pending :: "(sock \<times> addr) list"
  handled :: "sock list"
  gui_quit :: bool

text \<open>Server thread \<open>i\<close> exists and stands at the given point; moving it on.\<close>

definition at_pc :: "system \<Rightarrow> nat \<Rightarrow> thread_pc \<Rightarrow> bool" where
  "at_pc st i pc = (i < length (threads st) \<and> threads st ! i = pc)"

definition set_pc :: "nat \<Rightarrow> thread_pc \<Rightarrow> system \<Rightarrow> system" where
  "set_pc i pc st = st\<lparr>threads := (threads st)[i := pc]\<rparr>"

text \<open>
  \<^verbatim>\<open>
  def start_server(self):
      self.running = True
      server_thread = threading.Thread(target=self._run_server, daemon=True)
      server_thread.start()
  \<close>
  The method tests nothing: called again, on a running or on a stopped server, it
  sets the flag and spawns one more thread.
\<close>

definition start_server :: "system \<Rightarrow> system" where
  "start_server st =
     st\<lparr>self := (self st)\<lparr>running := True\<rparr>, threads := threads st @ [Spawned]\<rparr>"

text \<open>
  \<^verbatim>\<open>_run_server\<close> up to the loop: create the socket, set \<^verbatim>\<open>SO_REUSEADDR\<close>,
  \<^verbatim>\<open>bind\<close>, \<^verbatim>\<open>listen(5)\<close>, print. A failing \<^verbatim>\<open>bind\<close> is caught by the outer
  \<^verbatim>\<open>except Exception\<close>, which prints and lets the method return.
\<close>

definition run_server_setup :: "nat \<Rightarrow> bool \<Rightarrow> system \<Rightarrow> system" where
  "run_server_setup i bind_ok st =
     (if \<not> at_pc st i Spawned then st
      else
        (let l = \<lparr>reuse_addr = True, bound_to = None, backlog = None, lclosed = False\<rparr> in
         if bind_ok then
           set_pc i AtWhile
             (st\<lparr>self := (self st)\<lparr>server_socket :=
                    Some (l\<lparr>bound_to := Some (host (self st), port (self st)),
                            backlog := Some 5\<rparr>)\<rparr>,
                 wld := print (wld st) StartedMsg\<rparr>)
         else
           set_pc i (Returned (Critical BindError))
             (st\<lparr>self := (self st)\<lparr>server_socket := Some l\<rparr>,
                 wld := print (wld st) (CriticalMsg BindError)\<rparr>)))"

text \<open>The test of \<^verbatim>\<open>while self.running\<close>.\<close>

definition run_server_check :: "nat \<Rightarrow> system \<Rightarrow> system" where
  "run_server_check i st =
     (if \<not> at_pc st i AtWhile then st
      else if running (self st) then set_pc i CallingAccept st
      else set_pc i (Returned ConditionFalse) st)"

text \<open>
  The body of the loop:
  \<^verbatim>\<open>
  try:
      client_socket, client_address = self.server_socket.accept()
      print(f"Cliente conectado: {client_address}")
      client_thread = threading.Thread(target=self._handle_client, ...)
      client_thread.start()
  except OSError:
      if not self.running:
          print("Servidor foi parado.")
      else:
          print("Erro ao aceitar conexao.")
      break
  \<close>
  First the \<^verbatim>\<open>except OSError\<close> clause with its \<^verbatim>\<open>break\<close>, after which the method
  returns.
\<close>

definition accept_except :: "nat \<Rightarrow> system \<Rightarrow> system" where
  "accept_except i st =
     (if \<not> running (self st)
      then set_pc i (Returned StoppedCleanly) (st\<lparr>wld := print (wld st) StoppedMsg\<rparr>)
      else set_pc i (Returned AcceptError) (st\<lparr>wld := print (wld st) AcceptErrorMsg\<rparr>))"


text \<open>
  The call of \<^verbatim>\<open>accept\<close>. On \<^verbatim>\<open>None\<close> it is an \<^verbatim>\<open>AttributeError\<close>, which only the
  outer \<^verbatim>\<open>except Exception\<close> catches; on a socket that is already closed it raises
  \<^verbatim>\<open>OSError\<close> at once; on an open socket the thread blocks.
\<close>

definition run_server_call :: "nat \<Rightarrow> system \<Rightarrow> system" where
  "run_server_call i st =
     (if \<not> at_pc st i CallingAccept then st
      else
        (case server_socket (self st) of
           None \<Rightarrow>
             set_pc i (Returned (Critical AttributeError))
               (st\<lparr>wld := print (wld st) (CriticalMsg AttributeError)\<rparr>)
         | Some l \<Rightarrow>
             if lclosed l then accept_except i st else set_pc i InAccept st))"

text \<open>
  What a blocked \<^verbatim>\<open>accept\<close> comes back with is decided outside the program: a
  connection, or an \<^verbatim>\<open>OSError\<close>. Closing the socket from another thread need not
  wake it: where the platform leaves it blocked (Linux), a connection that arrives
  later is still returned; where the platform wakes it, it raises. Both are outcomes
  here, whatever the state of the socket.
\<close>

datatype accept_outcome = Connection sock addr | AcceptRaises

definition run_server_accept :: "nat \<Rightarrow> accept_outcome \<Rightarrow> system \<Rightarrow> system" where
  "run_server_accept i out st =
     (if \<not> at_pc st i InAccept then st
      else
        (case out of
           Connection c a \<Rightarrow>
             set_pc i AtWhile
               (st\<lparr>wld := print (wld st) (ConnectedMsg a),
                   pending := pending st @ [(c, a)]\<rparr>)
         | AcceptRaises \<Rightarrow> accept_except i st))"

text \<open>A handler thread runs \<^verbatim>\<open>_handle_client\<close> on the oldest pending connection.\<close>

definition run_handler :: "system \<Rightarrow> system" where
  "run_handler st =
     (case pending st of
        [] \<Rightarrow> st
      | (c, a) # rest \<Rightarrow>
          (case handle_client (self st) (wld st) c a of
             (w', c') \<Rightarrow> st\<lparr>wld := w', pending := rest, handled := handled st @ [c']\<rparr>))"

text \<open>
  \<^verbatim>\<open>
  def stop_server(self):
      print("Parando o servidor...")
      self.running = False
      if self.server_socket:
          self.server_socket.close()
      self.root.quit()
  \<close>
  Three steps, between which the other threads may run.
\<close>

definition stop_flag :: "system \<Rightarrow> system" where
  "stop_flag st =
     st\<lparr>wld := print (wld st) StoppingMsg, self := (self st)\<lparr>running := False\<rparr>\<rparr>"

definition stop_close :: "system \<Rightarrow> system" where
  "stop_close st =
     (case server_socket (self st) of
        None \<Rightarrow> st
      | Some l \<Rightarrow> st\<lparr>self := (self st)\<lparr>server_socket := Some (l\<lparr>lclosed := True\<rparr>)\<rparr>\<rparr>)"

definition stop_quit :: "system \<Rightarrow> system" where
  "stop_quit st = st\<lparr>gui_quit := True\<rparr>"


text \<open>
  A schedule lists, in the order they happen, the steps of the server threads, of the
  handler threads and of \<^verbatim>\<open>stop_server\<close> (the button, the window's close box,
  \<^verbatim>\<open>KeyboardInterrupt\<close>), and further calls of the public method \<^verbatim>\<open>start_server\<close>.
  \<^verbatim>\<open>run\<close> calls \<^verbatim>\<open>start_server\<close> once, before the main loop; no code of the
  repository calls it again, and nothing in the class prevents a caller from it.
\<close>

datatype action =
    Setup nat bool
  | Check nat
  | Call nat
  | Accept nat accept_outcome
  | Handler
  | StopFlag
  | StopClose
  | StopQuit
  | Start

fun step :: "system \<Rightarrow> action \<Rightarrow> system" where
  "step st (Setup i ok) = run_server_setup i ok st"
| "step st (Check i) = run_server_check i st"
| "step st (Call i) = run_server_call i st"
| "step st (Accept i out) = run_server_accept i out st"
| "step st Handler = run_handler st"
| "step st StopFlag = stop_flag st"
| "step st StopClose = stop_close st"
| "step st StopQuit = stop_quit st"
| "step st Start = start_server st"

definition exec :: "system \<Rightarrow> action list \<Rightarrow> system" where
  "exec st acts = foldl step st acts"

definition run :: "system \<Rightarrow> action list \<Rightarrow> system" where
  "run st acts = exec (start_server st) acts"




subsection \<open>Fragmented streams and concrete inputs\<close>

text \<open>A fragmentation of a byte stream: every fragment carries at least one byte.\<close>

definition nonempty_chunks :: "byte list list \<Rightarrow> bool" where
  "nonempty_chunks cs = list_all (\<lambda>c. c \<noteq> []) cs"

text \<open>A fresh connection on which the peer will deliver the given events.\<close>

definition client_sock :: "event list \<Rightarrow> sock" where
  "client_sock es =
     \<lparr>incoming = es, requests = [], send_fails = False, sent = [], closed = False\<rparr>"

text \<open>
  A machine on which the script lives in \<^verbatim>\<open>/srv\<close>, two seconds before midnight on
  15 January 2024; the same machine after \<^verbatim>\<open>PhotoServer()\<close> has been constructed
  there; and five seconds later, on the next day.
\<close>

definition fresh_world :: world where
  "fresh_world =
     \<lparr>nodes = [''/srv'' \<mapsto> Dir],
      denied = {},
      write_capacity = None,
      now = \<lparr>year = 2024, month = 1, day = 15, hour = 23, minute = 59, second = 58\<rparr>,
      base_dir = ''/srv'',
      gui_alive = True,
      scheduled = [],
      stdout = []\<rparr>"

definition example_world :: world where
  "example_world =
     fresh_world\<lparr>nodes :=
       [''/srv'' \<mapsto> Dir, ''/srv/data'' \<mapsto> Dir, ''/srv/data/2024-01-15'' \<mapsto> Dir]\<rparr>"

definition example_server :: server where
  "example_server =
     \<lparr>host = ''0.0.0.0'', port = 5001, server_socket = None, running = False,
      data_dir = ''/srv/data/2024-01-15''\<rparr>"

definition next_day_world :: world where
  "next_day_world =
     example_world\<lparr>now :=
       \<lparr>year = 2024, month = 1, day = 16, hour = 0, minute = 0, second = 3\<rparr>\<rparr>"

definition example_addr :: addr where
  "example_addr = (''192.168.0.7'', 40000)"

text \<open>The payload \<^verbatim>\<open>hello\<close> of the spec's end-to-end scenario.\<close>

definition hello :: "byte list" where
  "hello = [0x68, 0x65, 0x6C, 0x6C, 0x6F]"

text \<open>The constructed machine with a disk that accepts no more bytes.\<close>

definition full_disk_world :: world where
  "full_disk_world = example_world\<lparr>write_capacity := Some 0\<rparr>"

text \<open>The constructed machine with one photo already in the day's directory.\<close>

definition photo_world :: world where
  "photo_world =
     example_world\<lparr>nodes :=
       [''/srv'' \<mapsto> Dir, ''/srv/data'' \<mapsto> Dir, ''/srv/data/2024-01-15'' \<mapsto> Dir,
        ''/srv/data/2024-01-15/101500.jpg'' \<mapsto> File hello]\<rparr>"

text \<open>The program right after \<^verbatim>\<open>server = PhotoServer()\<close>, before \<^verbatim>\<open>server.run()\<close>.\<close>

definition initial_system :: system where
  "initial_system =
     \<lparr>self = example_server, wld = example_world, threads = [],
      pending = [], handled = [], gui_quit = False\<rparr>"

section \<open>Properties\<close>

subsection \<open>Reading an exact number of bytes\<close>

lemma recv_chunk:
  "incoming s = Chunk c # es \<Longrightarrow>
   recv s k = (Inr (take k c),
     s\<lparr>requests := requests s @ [k],
       incoming := (if length c \<le> k then es else Chunk (drop k c) # es)\<rparr>)"
  by (simp add: recv_def Let_def)

lemma receive_loop_done:
  "sz \<le> length data \<Longrightarrow> receive_loop s sz data = (Inr (Some data), s)"
  by (subst receive_loop.simps) simp

lemma receive_loop_chunks:
  "incoming s = map Chunk cs @ rest \<Longrightarrow> nonempty_chunks cs \<Longrightarrow>
   sz \<le> length data + length (concat cs) \<Longrightarrow>
   \<exists>s' cs'. receive_loop s sz data = (Inr (Some (data @ take (sz - length data) (concat cs))), s')
      \<and> incoming s' = map Chunk cs' @ rest \<and> nonempty_chunks cs'
      \<and> concat cs' = drop (sz - length data) (concat cs)
      \<and> send_fails s' = send_fails s \<and> sent s' = sent s \<and> closed s' = closed s"
proof (induction s sz data arbitrary: cs rule: receive_loop.induct)
  case (1 s sz data)
  show ?case
  proof (cases "length data < sz")
    case False
    then show ?thesis using "1.prems" by (auto simp: receive_loop_done)
  next
    case True
    let ?k = "sz - length data"
    from True "1.prems"(3) have "0 < length (concat cs)" by linarith
    then have "cs \<noteq> []" by auto
    with "1.prems"(2) obtain c cs0 where cs: "cs = c # cs0" and c: "c \<noteq> []"
      by (cases cs) (auto simp: nonempty_chunks_def)
    let ?cs1 = "if length c \<le> ?k then cs0 else drop ?k c # cs0"
    define s1 where "s1 = s\<lparr>requests := requests s @ [?k],
       incoming := (if length c \<le> ?k then map Chunk cs0 @ rest else Chunk (drop ?k c) # map Chunk cs0 @ rest)\<rparr>"
    have r: "recv s ?k = (Inr (take ?k c), s1)"
      unfolding s1_def using "1.prems"(1) cs by (intro recv_chunk) simp
    have tk: "take ?k c \<noteq> []" using c True by (cases c) auto
    have inc: "incoming s1 = map Chunk ?cs1 @ rest" by (simp add: s1_def)
    have ne: "nonempty_chunks ?cs1" using "1.prems"(2) cs by (auto simp: nonempty_chunks_def)
    have len: "sz \<le> length (data @ take ?k c) + length (concat ?cs1)"
      using "1.prems"(3) cs by auto
    from "1.IH" [OF True r [symmetric] refl tk inc ne len]
    obtain s' cs' where
      res: "receive_loop s1 sz (data @ take ?k c) =
         (Inr (Some ((data @ take ?k c) @ take (sz - length (data @ take ?k c)) (concat ?cs1))), s')"
      and rest: "incoming s' = map Chunk cs' @ rest" "nonempty_chunks cs'"
        "concat cs' = drop (sz - length (data @ take ?k c)) (concat ?cs1)"
        "send_fails s' = send_fails s1" "sent s' = sent s1" "closed s' = closed s1"
      by blast
    have unfold: "receive_loop s sz data = receive_loop s1 sz (data @ take ?k c)"
      by (subst receive_loop.simps [of s sz data])
         (simp only: True if_True r prod.case sum.case tk if_False)
    have e1: "(data @ take ?k c) @ take (sz - length (data @ take ?k c)) (concat ?cs1)
        = data @ take ?k (concat cs)"
      using cs by (auto simp: min_def)
    have e2: "drop (sz - length (data @ take ?k c)) (concat ?cs1) = drop ?k (concat cs)"
      using cs by (auto simp: min_def)
    show ?thesis
      using res rest unfolding unfold e1 e2 by (auto simp: s1_def)
  qed
qed

lemma receive_loop_short:
  "incoming s = map Chunk cs \<Longrightarrow> length data + length (concat cs) < sz \<Longrightarrow>
   \<exists>s'. receive_loop s sz data = (Inr None, s')
      \<and> send_fails s' = send_fails s \<and> sent s' = sent s \<and> closed s' = closed s"
proof (induction s sz data arbitrary: cs rule: receive_loop.induct)
  case (1 s sz data)
  let ?k = "sz - length data"
  from "1.prems"(2) have lt: "length data < sz" by simp
  show ?case
  proof (cases cs)
    case Nil
    then have r: "recv s ?k = (Inr [], s\<lparr>requests := requests s @ [?k]\<rparr>)"
      using "1.prems"(1) by (simp add: recv_def Let_def)
    show ?thesis
      by (subst receive_loop.simps [of s sz data]) (simp add: lt r)
  next
    case (Cons c cs0)
    define s1 where "s1 = s\<lparr>requests := requests s @ [?k], incoming := map Chunk cs0\<rparr>"
    have ck: "length c \<le> ?k" using "1.prems"(2) Cons by simp
    have r: "recv s ?k = (Inr c, s1)"
      using "1.prems"(1) Cons ck by (simp add: recv_def Let_def s1_def)
    show ?thesis
    proof (cases "c = []")
      case True
      show ?thesis
        by (subst receive_loop.simps [of s sz data]) (simp add: lt r True s1_def)
    next
      case False
      have inc: "incoming s1 = map Chunk cs0" by (simp add: s1_def)
      have len: "length (data @ c) + length (concat cs0) < sz"
        using "1.prems"(2) Cons by simp
      from "1.IH" [OF lt r [symmetric] refl False inc len]
      obtain s' where res: "receive_loop s1 sz (data @ c) = (Inr None, s')"
        and keep: "send_fails s' = send_fails s1" "sent s' = sent s1" "closed s' = closed s1"
        by blast
      have unfold: "receive_loop s sz data = receive_loop s1 sz (data @ c)"
        by (subst receive_loop.simps [of s sz data])
           (simp only: lt if_True r prod.case sum.case False if_False)
      show ?thesis using res keep unfolding unfold by (simp add: s1_def)
    qed
  qed
qed

text \<open>
  Claim C3. For every byte count \<open>n\<close> and every fragmentation of the incoming stream
  into non-empty chunks that together hold at least \<open>n\<close> bytes, \<^verbatim>\<open>_receive_all\<close>
  returns exactly \<open>n\<close> bytes, the first \<open>n\<close> bytes of the stream, wherever the chunk
  boundaries fall (and whatever the peer does after these chunks).
\<close>

theorem receive_all_exact:
  assumes "incoming s = map Chunk cs @ rest"
    and "nonempty_chunks cs"
    and "n \<le> length (concat cs)"
  shows "fst (receive_all s n) = Inr (Some (take n (concat cs)))
     \<and> length (take n (concat cs)) = n"
proof -
  from receive_loop_chunks [OF assms(1) assms(2), of n "[]"] assms(3)
  obtain s' where "receive_loop s n [] = (Inr (Some (take n (concat cs))), s')"
    by auto
  then show ?thesis using assms(3) by (simp add: receive_all_def)
qed

theorem receive_all_exact_witness:
  "fst (receive_all (client_sock [Chunk [1, 2], Chunk [3], Chunk [4, 5, 6]]) 4)
     = Inr (Some [1, 2, 3, 4])"
  using receive_all_exact [of "client_sock [Chunk [1, 2], Chunk [3], Chunk [4, 5, 6]]"
      "[[1, 2], [3], [4, 5, 6]]" "[]" 4]
  by (simp add: client_sock_def nonempty_chunks_def)

subsection \<open>The handler on fragmented streams\<close>

lemma receive_all_chunks:
  assumes "incoming s = map Chunk cs @ rest" and "nonempty_chunks cs"
    and "n \<le> length (concat cs)"
  shows "\<exists>s' cs'. receive_all s n = (Inr (Some (take n (concat cs))), s')
      \<and> incoming s' = map Chunk cs' @ rest \<and> nonempty_chunks cs'
      \<and> concat cs' = drop n (concat cs)
      \<and> send_fails s' = send_fails s \<and> sent s' = sent s \<and> closed s' = closed s"
  using receive_loop_chunks [OF assms(1) assms(2), of n "[]"] assms(3)
  by (simp add: receive_all_def)

lemma receive_all_short:
  assumes "incoming s = map Chunk cs" and "length (concat cs) < n"
  shows "\<exists>s'. receive_all s n = (Inr None, s')
      \<and> send_fails s' = send_fails s \<and> sent s' = sent s \<and> closed s' = closed s"
  using receive_loop_short [OF assms(1), of "[]" n] assms(2)
  by (simp add: receive_all_def)

lemma receive_all_zero: "receive_all s 0 = (Inr (Some []), s)"
  by (simp add: receive_all_def receive_loop_done)

lemma unpack_be32_Inr_length: "unpack_be32 bs = Inr n \<Longrightarrow> length bs = 4"
  by (induction bs rule: unpack_be32.induct) simp_all

lemma print_fields [simp]:
  "nodes (print w m) = nodes w" "scheduled (print w m) = scheduled w"
  "denied (print w m) = denied w" "write_capacity (print w m) = write_capacity w"
  "now (print w m) = now w" "gui_alive (print w m) = gui_alive w"
  "base_dir (print w m) = base_dir w" "stdout (print w m) = stdout w @ [m]"
  by (simp_all add: print_def)

lemma close_fields [simp]:
  "closed (close s) = True" "sent (close s) = sent s" "requests (close s) = requests s"
  by (simp_all add: close_def)

lemma handle_client_header_short:
  assumes "incoming s = map Chunk cs" and "length (concat cs) < 4"
  shows "\<exists>s'. handle_client srv w s a = (w, close s') \<and> sent s' = sent s"
proof -
  from receive_all_short [OF assms] obtain s' where
    "receive_all s 4 = (Inr None, s')" "sent s' = sent s" by blast
  then show ?thesis by (auto simp: handle_client_def handle_client_try_def)
qed

lemma handle_client_payload_short:
  assumes "incoming s = map Chunk cs" and "nonempty_chunks cs"
    and "unpack_be32 (take 4 (concat cs)) = Inr n" and "length (concat cs) < 4 + n"
  shows "\<exists>s'. handle_client srv w s a = (print w (SizeMsg n), close s') \<and> sent s' = sent s"
proof -
  from assms(3) have l4: "4 \<le> length (concat cs)"
    using unpack_be32_Inr_length [OF assms(3)] by simp
  from assms(1) have inc: "incoming s = map Chunk cs @ []" by simp
  from receive_all_chunks [OF inc assms(2) l4] obtain s1 cs1 where
    h: "receive_all s 4 = (Inr (Some (take 4 (concat cs))), s1)"
    and s1: "incoming s1 = map Chunk cs1 @ []" "concat cs1 = drop 4 (concat cs)"
      "sent s1 = sent s"
    by blast
  have ne: "take 4 (concat cs) \<noteq> []" using l4 by (cases "concat cs") auto
  from s1 assms(4) l4 have "incoming s1 = map Chunk cs1" "length (concat cs1) < n" by auto
  from receive_all_short [OF this] obtain s2 where
    p: "receive_all s1 n = (Inr None, s2)" "sent s2 = sent s1" by blast
  have "handle_client_try srv w s a = (Inr (), print w (SizeMsg n), s2)"
    using h ne assms(3) p by (auto simp: handle_client_try_def Let_def)
  then show ?thesis
    using p(2) s1(3) by (auto simp: handle_client_def)
qed

lemma unpack_bound:
  "unpack_be32 [b0, b1, b2, b3] = Inr n \<Longrightarrow> n < 2 ^ 32"
proof -
  have b: "unat b < 256" for b :: byte
    using unsigned_less [of b, where 'a = nat] by simp
  assume "unpack_be32 [b0, b1, b2, b3] = Inr n"
  then show ?thesis using b [of b0] b [of b1] b [of b2] b [of b3] by auto
qed

lemma recv_requests: "requests (snd (recv s k)) = requests s @ [k]"
  by (simp add: recv_def Let_def split: list.splits event.splits)

lemma receive_loop_requests:
  "\<exists>more. requests (snd (receive_loop s sz data)) = requests s @ more"
proof (induction s sz data rule: receive_loop.induct)
  case (1 s sz data)
  show ?case
  proof (cases "length data < sz")
    case False
    then show ?thesis by (simp add: receive_loop_done)
  next
    case True
    obtain r s1 where r: "recv s (sz - length data) = (r, s1)" by (cases "recv s (sz - length data)")
    have rq: "requests s1 = requests s @ [sz - length data]"
      using recv_requests [of s "sz - length data"] r by simp
    show ?thesis
    proof (cases r)
      case (Inl e)
      then show ?thesis
        by (subst receive_loop.simps [of s sz data]) (simp add: True r rq)
    next
      case (Inr chunk)
      show ?thesis
      proof (cases "chunk = []")
        case empty: True
        then show ?thesis
          by (subst receive_loop.simps [of s sz data]) (simp add: True r rq Inr)
      next
        case False
        from "1.IH" [OF True _ refl False, of s1] r Inr
        obtain more where "requests (snd (receive_loop s1 sz (data @ chunk))) = requests s1 @ more"
          by auto
        then show ?thesis
          by (subst receive_loop.simps [of s sz data]) (simp add: True r rq Inr False)
      qed
    qed
  qed
qed

lemma receive_loop_first_request:
  assumes "length data < sz"
  shows "\<exists>more. requests (snd (receive_loop s sz data)) = requests s @ (sz - length data) # more"
proof -
  obtain r s1 where r: "recv s (sz - length data) = (r, s1)" by (cases "recv s (sz - length data)")
  have rq: "requests s1 = requests s @ [sz - length data]"
    using recv_requests [of s "sz - length data"] r by simp
  show ?thesis
  proof (cases r)
    case (Inl e)
    then show ?thesis
      by (subst receive_loop.simps [of s sz data]) (simp add: assms r rq)
  next
    case (Inr chunk)
    show ?thesis
    proof (cases "chunk = []")
      case True
      then show ?thesis
        by (subst receive_loop.simps [of s sz data]) (simp add: assms r rq Inr)
    next
      case False
      from receive_loop_requests [of s1 sz "data @ chunk"]
      obtain more where "requests (snd (receive_loop s1 sz (data @ chunk))) = requests s1 @ more"
        by auto
      then show ?thesis
        by (subst receive_loop.simps [of s sz data]) (simp add: assms r rq Inr False)
    qed
  qed
qed

lemma be32_digits:
  fixes n :: nat
  assumes "n < 2 ^ 32"
  shows "(n div 2 ^ 24) mod 256 * 2 ^ 24 + (n div 2 ^ 16) mod 256 * 2 ^ 16
      + (n div 2 ^ 8) mod 256 * 2 ^ 8 + n mod 256 = n"
proof -
  define q1 where "q1 = n div 256"
  define q2 where "q2 = q1 div 256"
  define q3 where "q3 = q2 div 256"
  define r0 where "r0 = n mod 256"
  define r1 where "r1 = q1 mod 256"
  define r2 where "r2 = q2 mod 256"
  have d1: "n div 2 ^ 8 = q1" by (simp add: q1_def)
  have d2: "n div 2 ^ 16 = q2"
    using div_mult2_eq [of n 256 256] by (simp add: q1_def q2_def)
  have d3: "n div 2 ^ 24 = q3"
    using div_mult2_eq [of n 65536 256] d2 by (simp add: q3_def)
  have e0: "n = q1 * 256 + r0" by (simp add: q1_def r0_def)
  have e1: "q1 = q2 * 256 + r1" by (simp add: q2_def r1_def)
  have e2: "q2 = q3 * 256 + r2" by (simp add: q3_def r2_def)
  have "q3 < 256" using assms d3 by (simp add: less_mult_imp_div_less)
  then have m3: "q3 mod 256 = q3" by simp
  have "q3 * 2 ^ 24 + r2 * 2 ^ 16 + r1 * 2 ^ 8 + r0 = n"
    using e0 e1 e2 by simp
  then show ?thesis
    unfolding d1 d2 d3 m3 r0_def [symmetric] r1_def [symmetric] r2_def [symmetric] .
qed

lemma pack_unpack: "n < 2 ^ 32 \<Longrightarrow> unpack_be32 (pack_be32 n) = Inr n"
  using be32_digits [of n] by (simp add: pack_be32_def unat_of_nat)

lemma pack_be32_length: "length (pack_be32 n) = 4"
  by (simp add: pack_be32_def)


lemma write_file_ok:
  "fst (write_file w p bs) = Inr () \<Longrightarrow>
   write_file w p bs = (Inr (), w\<lparr>nodes := (nodes w)(p \<mapsto> File bs)\<rparr>)"
  by (auto simp: write_file_def split: option.splits if_splits)

lemma save_path_print [simp]: "save_path sv (print w m) = save_path sv w"
  by (simp add: save_path_def)






lemma handle_client_zero:
  assumes "incoming s = map Chunk cs @ rest" and "nonempty_chunks cs"
    and "take 4 (concat cs) = pack_be32 0"
  shows "\<exists>s1. handle_client sv w s a = (print w (SizeMsg 0), close s1) \<and> sent s1 = sent s"
proof -
  have "length (take 4 (concat cs)) = 4" by (simp add: assms(3) pack_be32_length)
  then have l4: "4 \<le> length (concat cs)" by simp
  from receive_all_chunks [OF assms(1) assms(2) l4] obtain s1 where
    h: "receive_all s 4 = (Inr (Some (pack_be32 0)), s1)" and s1: "sent s1 = sent s"
    unfolding assms(3) by blast
  have ne: "pack_be32 0 \<noteq> []" by (simp add: pack_be32_def)
  have "handle_client_try sv w s a = (Inr (), print w (SizeMsg 0), s1)"
    unfolding handle_client_try_def h
    by (simp add: ne pack_unpack receive_all_zero Let_def)
  then show ?thesis using s1 by (auto simp: handle_client_def)
qed

lemma handle_client_requests:
  assumes "receive_all s 4 = (Inr (Some hdr), s1)" and "hdr \<noteq> []"
    and "unpack_be32 hdr = Inr n"
  shows "requests (snd (handle_client sv w s a)) = requests (snd (receive_all s1 n))"
  using assms
  by (auto simp: handle_client_def handle_client_try_def Let_def send_def
      split: prod.splits sum.splits option.splits)

subsection \<open>Unfolding the model on concrete inputs\<close>

lemmas eval_defs =
  handle_client_def handle_client_try_def receive_all_def receive_loop.simps recv_def
  client_sock_def pack_be32_def hello_def send_def close_def OK_def
  save_and_display_image_def save_path_def write_file_def root_after_def print_def
  path_join_def path_split_def all_slashes_def rstrip_slashes_def is_dir_def
  strftime_time_def strftime_date_def two_digits_def four_digits_def digit_def
  example_world_def fresh_world_def example_server_def example_addr_def
  full_disk_world_def next_day_world_def photo_world_def nonempty_chunks_def Let_def

subsection \<open>The transfer as a whole\<close>




subsection \<open>A failing storage step\<close>




subsection \<open>A stream that ends early\<close>

text \<open>
  Claim C4. If the peer closes before \<open>m\<close> bytes have arrived, \<^verbatim>\<open>_receive_all\<close>
  returns \<^verbatim>\<open>None\<close> and no partial data; and when the stream ends inside the header, or
  inside the payload that the header declares, the handler writes no file, queues no
  display update, sends nothing and closes the connection.
\<close>

theorem incomplete_stream_aborts:
  assumes "incoming s = map Chunk cs" and "nonempty_chunks cs"
  shows "(length (concat cs) < m \<longrightarrow> fst (receive_all s m) = Inr None)
     \<and> (length (concat cs) < 4
          \<or> (\<exists>n. unpack_be32 (take 4 (concat cs)) = Inr n \<and> length (concat cs) < 4 + n)
        \<longrightarrow> nodes (fst (handle_client sv w s a)) = nodes w
          \<and> scheduled (fst (handle_client sv w s a)) = scheduled w
          \<and> sent (snd (handle_client sv w s a)) = sent s
          \<and> closed (snd (handle_client sv w s a)))"
proof -
  have short: "fst (receive_all s m) = Inr None" if "length (concat cs) < m"
    using receive_all_short [OF assms(1) that] by auto
  have header: "nodes (fst (handle_client sv w s a)) = nodes w
          \<and> scheduled (fst (handle_client sv w s a)) = scheduled w
          \<and> sent (snd (handle_client sv w s a)) = sent s
          \<and> closed (snd (handle_client sv w s a))"
    if "length (concat cs) < 4"
    using handle_client_header_short [OF assms(1) that, of sv w a] by auto
  have payload: "nodes (fst (handle_client sv w s a)) = nodes w
          \<and> scheduled (fst (handle_client sv w s a)) = scheduled w
          \<and> sent (snd (handle_client sv w s a)) = sent s
          \<and> closed (snd (handle_client sv w s a))"
    if "unpack_be32 (take 4 (concat cs)) = Inr n" and "length (concat cs) < 4 + n" for n
    using handle_client_payload_short [OF assms that, of sv w a] by auto
  show ?thesis using short header payload by blast
qed

theorem incomplete_stream_aborts_witness:
  "fst (receive_all (client_sock [Chunk [0, 0, 0, 0x0A], Chunk [1, 2, 3]]) 10) = Inr None
   \<and> nodes (fst (handle_client example_server example_world
         (client_sock [Chunk [0, 0, 0, 0x0A], Chunk [1, 2, 3]]) example_addr))
       = nodes example_world
   \<and> sent (snd (handle_client example_server example_world
         (client_sock [Chunk [0, 0, 0, 0x0A], Chunk [1, 2, 3]]) example_addr)) = []
   \<and> closed (snd (handle_client example_server example_world
         (client_sock [Chunk [0, 0, 0, 0x0A], Chunk [1, 2, 3]]) example_addr))"
proof -
  have h: "incoming (client_sock [Chunk [0, 0, 0, 0x0A], Chunk [1, 2, 3]])
       = map Chunk [[0, 0, 0, 0x0A], [1, 2, 3]]"
    "nonempty_chunks [[0, 0, 0, 0x0A], [1, 2, 3]]"
    by (simp_all add: client_sock_def nonempty_chunks_def)
  have n: "unpack_be32 (take 4 (concat [[0, 0, 0, 0x0A], [1, 2, 3 :: byte]])) = Inr 10"
    by simp
  from incomplete_stream_aborts [OF h, of 10 example_server example_world example_addr] n
  show ?thesis by (simp add: client_sock_def)
qed

subsection \<open>A declared size of zero\<close>

text \<open>
  Claim C5. With a header that declares 0 bytes, \<^verbatim>\<open>_receive_all\<close> returns the empty
  byte string without reading; the handler takes it for a failed read and returns: it
  only prints the size, no file is created, nothing is sent, the connection is closed.
\<close>

theorem zero_size_rejected:
  assumes "incoming s = map Chunk cs @ rest" and "nonempty_chunks cs"
    and "take 4 (concat cs) = pack_be32 0"
  shows "receive_all s' 0 = (Inr (Some []), s')
     \<and> fst (handle_client sv w s a) = print w (SizeMsg 0)
     \<and> nodes (fst (handle_client sv w s a)) = nodes w
     \<and> sent (snd (handle_client sv w s a)) = sent s
     \<and> closed (snd (handle_client sv w s a))"
  using handle_client_zero [OF assms, of sv w a] by (auto simp: receive_all_zero)

theorem zero_size_rejected_witness:
  "nodes (fst (handle_client example_server example_world
         (client_sock [Chunk [0, 0], Chunk [0, 0]]) example_addr)) = nodes example_world
   \<and> sent (snd (handle_client example_server example_world
         (client_sock [Chunk [0, 0], Chunk [0, 0]]) example_addr)) = []
   \<and> closed (snd (handle_client example_server example_world
         (client_sock [Chunk [0, 0], Chunk [0, 0]]) example_addr))"
proof -
  have "incoming (client_sock [Chunk [0, 0], Chunk [0, 0]]) = map Chunk [[0, 0], [0, 0]] @ []"
    "nonempty_chunks [[0, 0], [0, 0]]"
    "take 4 (concat [[0, 0], [0, 0]]) = pack_be32 0"
    by (simp_all add: client_sock_def nonempty_chunks_def pack_be32_def)
  from zero_size_rejected [OF this, of _ example_server example_world example_addr]
  show ?thesis by (simp add: client_sock_def)
qed

subsection \<open>The connection is always closed\<close>

lemma handle_client_closes: "closed (snd (handle_client sv w s a))"
  by (simp add: handle_client_def split: prod.splits sum.splits)

lemma handle_client_closes_pair: "handle_client sv w s a = (w', s') \<Longrightarrow> closed s'"
  using handle_client_closes [of sv w s a] by simp

lemma set_pc_fields [simp]:
  "self (set_pc i pc st) = self st" "wld (set_pc i pc st) = wld st"
  "pending (set_pc i pc st) = pending st" "handled (set_pc i pc st) = handled st"
  "gui_quit (set_pc i pc st) = gui_quit st"
  "threads (set_pc i pc st) = (threads st)[i := pc]"
  by (simp_all add: set_pc_def)

lemmas step_defs =
  run_server_setup_def run_server_check_def run_server_call_def run_server_accept_def
  accept_except_def run_handler_def stop_flag_def stop_close_def stop_quit_def
  start_server_def Let_def

lemma step_handled:
  "list_all closed (handled st) \<Longrightarrow> list_all closed (handled (step st act))"
  by (cases act)
     (auto simp: step_defs dest: handle_client_closes_pair
        split: accept_outcome.splits option.splits list.splits prod.splits)

lemma exec_handled:
  "list_all closed (handled st) \<Longrightarrow> list_all closed (handled (exec st acts))"
  unfolding exec_def by (induction acts arbitrary: st) (simp_all add: step_handled)

text \<open>
  Claim C7. Whatever the peer sends, whatever the file system and the window do and
  whichever step raises, the client socket is closed when \<^verbatim>\<open>_handle_client\<close> returns;
  so along every schedule, every connection that a handler thread has finished with
  is closed.
\<close>

theorem client_socket_always_closed:
  "closed (snd (handle_client sv w s a))
   \<and> (list_all closed (handled st) \<longrightarrow> list_all closed (handled (exec st acts)))"
  using handle_client_closes [of sv w s a] exec_handled [of st acts] by blast

theorem client_socket_always_closed_witness:
  "list_all closed (handled (run initial_system
      [Setup 0 True, Check 0, Call 0,
       Accept 0 (Connection (client_sock [Chunk [0, 0], Reset]) example_addr), Handler]))
   \<and> length (handled (run initial_system
      [Setup 0 True, Check 0, Call 0,
       Accept 0 (Connection (client_sock [Chunk [0, 0], Reset]) example_addr), Handler])) = 1"
proof -
  have h: "list_all closed (handled (start_server initial_system))"
    by (simp add: start_server_def initial_system_def)
  have l: "length (handled (run initial_system
      [Setup 0 True, Check 0, Call 0,
       Accept 0 (Connection (client_sock [Chunk [0, 0], Reset]) example_addr), Handler])) = 1"
    by (simp add: run_def exec_def initial_system_def step_defs at_pc_def
        split: prod.splits)
  from client_socket_always_closed [of _ _ _ _ "start_server initial_system"
      "[Setup 0 True, Check 0, Call 0,
        Accept 0 (Connection (client_sock [Chunk [0, 0], Reset]) example_addr), Handler]"] h l
  show ?thesis by (simp add: run_def)
qed

subsection \<open>The declared size\<close>

text \<open>
  Claim C10. Four header bytes decode as a big-endian unsigned integer, which lies in
  \<open>[0, 2^32 - 1]\<close>; every value of that range is the decoding of a header; and the
  handler enforces no bound on it: the first \<^verbatim>\<open>recv\<close> after the header asks for
  exactly the declared number of bytes.
\<close>

theorem header_decoding:
  "unpack_be32 [b0, b1, b2, b3]
      = Inr (unat b0 * 2 ^ 24 + unat b1 * 2 ^ 16 + unat b2 * 2 ^ 8 + unat b3)
   \<and> unat b0 * 2 ^ 24 + unat b1 * 2 ^ 16 + unat b2 * 2 ^ 8 + unat b3 < 2 ^ 32
   \<and> (n < 2 ^ 32 \<longrightarrow> unpack_be32 (pack_be32 n) = Inr n)
   \<and> (incoming s = map Chunk cs @ rest \<and> nonempty_chunks cs
        \<and> take 4 (concat cs) = pack_be32 n \<and> 0 < n \<and> n < 2 ^ 32
      \<longrightarrow> (\<exists>more. requests (snd (handle_client sv w s a))
             = requests (snd (receive_all s 4)) @ n # more))"
proof (intro conjI impI)
  show "unpack_be32 [b0, b1, b2, b3]
      = Inr (unat b0 * 2 ^ 24 + unat b1 * 2 ^ 16 + unat b2 * 2 ^ 8 + unat b3)"
    by simp
  then show "unat b0 * 2 ^ 24 + unat b1 * 2 ^ 16 + unat b2 * 2 ^ 8 + unat b3 < 2 ^ 32"
    by (rule unpack_bound)
next
  assume "n < 2 ^ 32" then show "unpack_be32 (pack_be32 n) = Inr n" by (rule pack_unpack)
next
  assume a: "incoming s = map Chunk cs @ rest \<and> nonempty_chunks cs
        \<and> take 4 (concat cs) = pack_be32 n \<and> 0 < n \<and> n < 2 ^ 32"
  then have "length (take 4 (concat cs)) = 4" by (simp add: pack_be32_length)
  then have l4: "4 \<le> length (concat cs)" by simp
  from a receive_all_chunks [of s cs rest 4, OF _ _ l4] obtain s1 where
    h: "receive_all s 4 = (Inr (Some (pack_be32 n)), s1)" by auto
  have ne: "pack_be32 n \<noteq> []" by (simp add: pack_be32_def)
  have u: "unpack_be32 (pack_be32 n) = Inr n" using a by (simp add: pack_unpack)
  have "requests (snd (handle_client sv w s a)) = requests (snd (receive_all s1 n))"
    by (rule handle_client_requests [OF h ne u])
  moreover from a receive_loop_first_request [of "[]" n s1]
  obtain more where "requests (snd (receive_all s1 n)) = requests s1 @ n # more"
    by (auto simp: receive_all_def)
  ultimately show "\<exists>more. requests (snd (handle_client sv w s a))
             = requests (snd (receive_all s 4)) @ n # more"
    using h by simp
qed

theorem header_decoding_witness:
  "unpack_be32 [0xFF, 0xFF, 0xFF, 0xFF] = Inr 4294967295
   \<and> (\<exists>more. requests (snd (handle_client example_server example_world
         (client_sock [Chunk [0xFF, 0xFF, 0xFF, 0xFF, 1, 2, 3]]) example_addr))
       = [4, 4294967295] @ more)"
proof -
  have r: "requests (snd (receive_all (client_sock [Chunk [0xFF, 0xFF, 0xFF, 0xFF, 1, 2, 3]]) 4)) = [4]"
    by (simp add: receive_all_def receive_loop.simps recv_def client_sock_def)
  have p: "pack_be32 4294967295 = [0xFF, 0xFF, 0xFF, 0xFF]"
    by (simp add: pack_be32_def)
  have h: "incoming (client_sock [Chunk [0xFF, 0xFF, 0xFF, 0xFF, 1, 2, 3]])
         = map Chunk [[0xFF, 0xFF, 0xFF, 0xFF, 1, 2, 3]] @ []
      \<and> nonempty_chunks [[0xFF, 0xFF, 0xFF, 0xFF, 1, 2, 3]]
      \<and> take 4 (concat [[0xFF, 0xFF, 0xFF, 0xFF, 1, 2, 3]]) = pack_be32 4294967295
      \<and> (0::nat) < 4294967295 \<and> (4294967295::nat) < 2 ^ 32"
    by (simp add: client_sock_def nonempty_chunks_def p)
  from header_decoding [of "0xFF" "0xFF" "0xFF" "0xFF" 4294967295
      "client_sock [Chunk [0xFF, 0xFF, 0xFF, 0xFF, 1, 2, 3]]"
      "[[0xFF, 0xFF, 0xFF, 0xFF, 1, 2, 3]]" "[]" example_server example_world example_addr] h
  show ?thesis by (simp add: r)
qed

subsection \<open>Directories and file names\<close>

lemma mkdir_keeps: "nodes w q \<noteq> None \<Longrightarrow> nodes (snd (mkdir w p)) q = nodes w q"
  by (auto simp: mkdir_def path_exists_def)

lemma mkdir_exist_ok_keeps:
  "nodes w q \<noteq> None \<Longrightarrow> nodes (snd (mkdir_exist_ok w p)) q = nodes w q"
  using mkdir_keeps [of w q p]
  by (auto simp: mkdir_exist_ok_def split: prod.splits sum.splits)

lemma makedirs_keeps:
  "nodes w q \<noteq> None \<Longrightarrow> nodes (snd (makedirs w name)) q = nodes w q"
proof (induction w name rule: makedirs.induct)
  case (1 w name)
  let ?head = "fst (makedirs_split name)"
  let ?tail = "snd (makedirs_split name)"
  show ?case
  proof (cases "?head \<noteq> [] \<and> ?tail \<noteq> [] \<and> \<not> path_exists w ?head")
    case False
    then have "makedirs w name = mkdir_exist_ok w name"
      by (subst makedirs.simps [of w name]) (auto simp: Let_def)
    then show ?thesis using "1.prems" by (simp add: mkdir_exist_ok_keeps)
  next
    case True
    obtain r w1 where r: "makedirs w ?head = (r, w1)" by (cases "makedirs w ?head")
    from "1.IH" [OF refl refl True "1.prems"] r
    have k: "nodes w1 q = nodes w q" by simp
    then have k': "nodes w1 q \<noteq> None" using "1.prems" by simp
    have "makedirs w name = (r, w1) \<or> makedirs w name = (Inr (), w1)
        \<or> makedirs w name = mkdir_exist_ok w1 name"
      using True r
      by (subst (1 2 3) makedirs.simps [of w name]) (auto simp: Let_def split: sum.splits)
    then show ?thesis
      using k mkdir_exist_ok_keeps [OF k', of name] by auto
  qed
qed

lemma makedirs_existing:
  assumes "nodes w p = Some Dir" and "path_exists w (fst (makedirs_split p))"
  shows "makedirs w p = (Inr (), w)"
proof -
  have "makedirs w p = mkdir_exist_ok w p"
    using assms(2) by (subst makedirs.simps [of w p]) (auto simp: Let_def)
  also have "\<dots> = (Inr (), w)"
    using assms(1) by (simp add: mkdir_exist_ok_def mkdir_def path_exists_def is_dir_def)
  finally show ?thesis .
qed

lemma digit_in: "digit n \<in> set ''0123456789''"
  unfolding digit_def by (rule nth_mem) simp

lemma digit_not_slash: "digit n \<noteq> CHR ''/''"
  using digit_in [of n] by auto

lemma hd_date: "hd (strftime_date t) \<noteq> CHR ''/''" "strftime_date t \<noteq> []"
  by (simp_all add: strftime_date_def four_digits_def digit_not_slash)

lemma hd_time: "hd (strftime_time t @ ''.jpg'') \<noteq> CHR ''/''"
  by (simp add: strftime_time_def two_digits_def digit_not_slash)

lemma init_data_dir:
  "init h p w0 = (r, sv, w1) \<Longrightarrow>
   data_dir sv = path_join (path_join (base_dir w0) ''data'') (strftime_date (now w0))"
  by (auto simp: init_def create_data_directory_def Let_def split: prod.splits)

lemma data_dir_plain:
  assumes "b \<noteq> []" and "last b \<noteq> CHR ''/''"
  shows "path_join (path_join b ''data'') (strftime_date t) = b @ ''/data/'' @ strftime_date t"
  using assms hd_date [of t] by (simp add: path_join_def)

lemma save_path_plain:
  assumes "d \<noteq> []" and "last d \<noteq> CHR ''/''"
  shows "path_join d (strftime_time t @ ''.jpg'') = d @ ''/'' @ strftime_time t @ ''.jpg''"
  using assms hd_time [of t] by (simp add: path_join_def)

lemma last_date: "last (b @ ''/data/'' @ strftime_date t) \<noteq> CHR ''/''"
  by (simp add: strftime_date_def two_digits_def digit_not_slash)

lemma save_writes:
  assumes "fst (write_file w (save_path sv w) bs) = Inr ()"
  shows "nodes (save_and_display_image sv w bs a) = (nodes w)(save_path sv w \<mapsto> File bs)"
  using write_file_ok [OF assms]
  by (simp add: save_and_display_image_def Let_def root_after_def)

lemma init_example:
  "init ''0.0.0.0'' 5001 fresh_world = (Inr (), example_server, example_world)"
  apply (simp add: init_def create_data_directory_def fresh_world_def example_world_def
      example_server_def strftime_date_def four_digits_def two_digits_def digit_def
      path_join_def Let_def)
  apply (simp add: makedirs.simps makedirs_split_def path_split_def all_slashes_def
      rstrip_slashes_def path_exists_def mkdir_exist_ok_def mkdir_def is_dir_def Let_def)
  done

text \<open>
  Claim C6, as amended. The directory is fixed when the server object is constructed:
  \<^verbatim>\<open>data_dir\<close> is base directory / \<^verbatim>\<open>data\<close> / \<^verbatim>\<open>YYYY-MM-DD\<close> with the date of the
  clock at construction. Every payload is written to \<^verbatim>\<open>data_dir\<close> / \<^verbatim>\<open>HHMMSS.jpg\<close>,
  where only the time of day is read from the clock when the payload is saved.
\<close>

theorem save_location:
  assumes "init h p w0 = (r, sv, w1)"
  shows "save_path sv w =
       path_join (path_join (path_join (base_dir w0) ''data'') (strftime_date (now w0)))
         (strftime_time (now w) @ ''.jpg'')
     \<and> length (strftime_date (now w0)) = 10 \<and> length (strftime_time (now w)) = 6
     \<and> (base_dir w0 \<noteq> [] \<and> last (base_dir w0) \<noteq> CHR ''/'' \<longrightarrow>
          save_path sv w = base_dir w0 @ ''/data/'' @ strftime_date (now w0)
             @ ''/'' @ strftime_time (now w) @ ''.jpg'')
     \<and> (fst (write_file w (save_path sv w) P) = Inr () \<longrightarrow>
          nodes (save_and_display_image sv w P a) = (nodes w)(save_path sv w \<mapsto> File P))"
proof -
  have d: "data_dir sv = path_join (path_join (base_dir w0) ''data'') (strftime_date (now w0))"
    using assms by (rule init_data_dir)
  have plain: "save_path sv w = base_dir w0 @ ''/data/'' @ strftime_date (now w0)
             @ ''/'' @ strftime_time (now w) @ ''.jpg''"
    if "base_dir w0 \<noteq> []" and "last (base_dir w0) \<noteq> CHR ''/''"
  proof -
    have "data_dir sv = base_dir w0 @ ''/data/'' @ strftime_date (now w0)"
      unfolding d using that by (rule data_dir_plain)
    then show ?thesis
      using save_path_plain [of "base_dir w0 @ ''/data/'' @ strftime_date (now w0)" "now w"]
        last_date [of "base_dir w0" "now w0"]
      by (simp add: save_path_def)
  qed
  show ?thesis
    using plain save_writes [of w sv P a]
    by (simp add: save_path_def d strftime_date_def strftime_time_def four_digits_def
        two_digits_def)
qed

theorem save_location_witness:
  "save_path example_server next_day_world = ''/srv/data/2024-01-15/000003.jpg''
   \<and> nodes (save_and_display_image example_server next_day_world hello example_addr)
       = (nodes next_day_world)(''/srv/data/2024-01-15/000003.jpg'' \<mapsto> File hello)"
proof -
  have b: "base_dir fresh_world \<noteq> [] \<and> last (base_dir fresh_world) \<noteq> CHR ''/''"
    by (simp add: fresh_world_def)
  have p: "base_dir fresh_world @ ''/data/'' @ strftime_date (now fresh_world)
             @ ''/'' @ strftime_time (now next_day_world) @ ''.jpg''
         = ''/srv/data/2024-01-15/000003.jpg''"
    by (simp add: eval_defs)
  have w: "fst (write_file next_day_world ''/srv/data/2024-01-15/000003.jpg'' hello) = Inr ()"
    by (simp add: eval_defs)
  note c = save_location [OF init_example, of next_day_world hello example_addr]
  from c b have "save_path example_server next_day_world =
      base_dir fresh_world @ ''/data/'' @ strftime_date (now fresh_world)
        @ ''/'' @ strftime_time (now next_day_world) @ ''.jpg''"
    by blast
  then have sp: "save_path example_server next_day_world = ''/srv/data/2024-01-15/000003.jpg''"
    unfolding p .
  from c have "fst (write_file next_day_world (save_path example_server next_day_world) hello)
        = Inr () \<longrightarrow>
      nodes (save_and_display_image example_server next_day_world hello example_addr)
        = (nodes next_day_world)(save_path example_server next_day_world \<mapsto> File hello)"
    by blast
  then show ?thesis unfolding sp using w sp by blast
qed

text \<open>
  The claim as stated takes the date, too, from the clock at saving time. A server
  constructed at 23:59:58 on 15 January that saves a payload at 00:00:03 on 16 January
  writes it under \<^verbatim>\<open>2024-01-15\<close>; nothing appears under \<^verbatim>\<open>2024-01-16\<close>.
\<close>

theorem save_location_counterexample:
  "init ''0.0.0.0'' 5001 fresh_world = (Inr (), example_server, example_world)
   \<and> strftime_date (now next_day_world) = ''2024-01-16''
   \<and> nodes (save_and_display_image example_server next_day_world hello example_addr)
        ''/srv/data/2024-01-15/000003.jpg'' = Some (File hello)
   \<and> nodes (save_and_display_image example_server next_day_world hello example_addr)
        ''/srv/data/2024-01-16/000003.jpg'' = None"
  using init_example by (simp add: eval_defs)

text \<open>
  Claim C9. Creating a directory that already exists (under a parent that exists, as
  in every file system) raises nothing and leaves the whole file system as it was;
  and whatever the prior state, \<^verbatim>\<open>makedirs\<close> never alters a node that exists, so the
  files in the directory keep their contents. The same holds for
  \<^verbatim>\<open>create_data_directory\<close> on the day's directory.
\<close>

theorem create_existing_directory:
  "(nodes w p = Some Dir \<and> path_exists w (fst (makedirs_split p)) \<longrightarrow>
      makedirs w p = (Inr (), w))
   \<and> (nodes w q \<noteq> None \<longrightarrow> nodes (snd (makedirs w p)) q = nodes w q)
   \<and> (nodes w (path_join (path_join (base_dir w) ''data'') (strftime_date (now w))) = Some Dir
        \<and> path_exists w (fst (makedirs_split
             (path_join (path_join (base_dir w) ''data'') (strftime_date (now w))))) \<longrightarrow>
      create_data_directory sv w =
        (Inr (), sv\<lparr>data_dir :=
           path_join (path_join (base_dir w) ''data'') (strftime_date (now w))\<rparr>, w))"
  using makedirs_existing [of w p] makedirs_keeps [of w q p]
    makedirs_existing [of w "path_join (path_join (base_dir w) ''data'') (strftime_date (now w))"]
  by (simp add: create_data_directory_def Let_def)

theorem create_existing_directory_witness:
  "makedirs photo_world ''/srv/data/2024-01-15'' = (Inr (), photo_world)
   \<and> nodes (snd (makedirs photo_world ''/srv/data/2024-01-15''))
        ''/srv/data/2024-01-15/101500.jpg'' = Some (File hello)
   \<and> create_data_directory example_server photo_world = (Inr (), example_server, photo_world)"
proof -
  have t: "path_join (path_join (base_dir photo_world) ''data'') (strftime_date (now photo_world))
      = ''/srv/data/2024-01-15''"
    by (simp add: eval_defs)
  have d: "nodes photo_world ''/srv/data/2024-01-15'' = Some Dir
      \<and> path_exists photo_world (fst (makedirs_split ''/srv/data/2024-01-15''))"
    by (simp add: eval_defs path_exists_def makedirs_split_def)
  have f: "nodes photo_world ''/srv/data/2024-01-15/101500.jpg'' = Some (File hello)"
    by (simp add: eval_defs)
  have s: "example_server\<lparr>data_dir := ''/srv/data/2024-01-15''\<rparr> = example_server"
    by (simp add: example_server_def)
  note c = create_existing_directory [of photo_world "''/srv/data/2024-01-15''"
      "''/srv/data/2024-01-15/101500.jpg''" example_server, unfolded t s]
  from c d have 1: "makedirs photo_world ''/srv/data/2024-01-15'' = (Inr (), photo_world)"
    and 3: "create_data_directory example_server photo_world
        = (Inr (), example_server, photo_world)"
    by blast+
  from c f have 2: "nodes (snd (makedirs photo_world ''/srv/data/2024-01-15''))
        ''/srv/data/2024-01-15/101500.jpg'' = nodes photo_world ''/srv/data/2024-01-15/101500.jpg''"
    by simp
  show ?thesis using 1 2 3 f by simp
qed

subsection \<open>Stopping the server\<close>

lemma run_handler_self [simp]: "self (run_handler st) = self st"
  by (simp add: run_handler_def split: list.splits prod.splits)


lemma data_dir_step: "data_dir (self (step st a)) = data_dir (self st)"
  by (cases a)
     (auto simp: step_defs
        split: accept_outcome.splits option.splits list.splits prod.splits)










text \<open>
  Where closing the socket does not wake the blocked \<^verbatim>\<open>accept\<close>, a connection that
  arrives after \<^verbatim>\<open>stop_server\<close> is still accepted and handed to a handler; the loop
  then ends at its test, without the line \<^verbatim>\<open>Servidor foi parado.\<close>
\<close>

lemma late_connection_after_stop:
  "threads (run initial_system
      [Setup 0 True, Check 0, Call 0, StopFlag, StopClose, StopQuit,
       Accept 0 (Connection (client_sock []) example_addr), Check 0])
     = [Returned ConditionFalse]
   \<and> stdout (wld (run initial_system
      [Setup 0 True, Check 0, Call 0, StopFlag, StopClose, StopQuit,
       Accept 0 (Connection (client_sock []) example_addr), Check 0]))
     = [StartedMsg, StoppingMsg, ConnectedMsg example_addr]"
  by (simp add: run_def exec_def initial_system_def step_defs at_pc_def print_def
      example_world_def fresh_world_def)




end
